theory Spec2Isabelle
  imports Main "HOL-Library.Char_ord" "HOL-Library.List_Lexorder" "HOL-Library.AList"
begin

section \<open>Values and exceptions of the Python program\<close>

text \<open>
  The refresh command of \<^verbatim>\<open>ceph_refresh.py\<close> works on decoded JSON bodies. A decoded
  body is a \<open>json\<close> value: a Python \<open>dict\<close> is the association list of its items (the keys
  of a dict are distinct), a Python \<open>list\<close> is a list. Floating point numbers are left out.
\<close>

datatype json =
    JNull
  | JBool bool
  | JInt int
  | JStr string
  | JArr "json list"
  | JObj "(string \<times> json) list"

text \<open>The exceptions the code can raise; \<open>ConnectionError\<close> stands for every failure of
  the transport inside \<^verbatim>\<open>requests.get\<close>.\<close>

datatype error =
    ConnectionError
  | ValueError
  | KeyError string
  | TypeError
  | AttributeError
  | IndexError

text \<open>\<^verbatim>\<open>x[k]\<close> with a string key: only a dict can be subscripted with a string; a
  missing key is a \<open>KeyError\<close>.\<close>

fun getitem :: "json \<Rightarrow> string \<Rightarrow> error + json" where
  "getitem (JObj kvs) k = (case map_of kvs k of None \<Rightarrow> Inl (KeyError k) | Some v \<Rightarrow> Inr v)"
| "getitem JNull k = Inl TypeError"
| "getitem (JBool b) k = Inl TypeError"
| "getitem (JInt n) k = Inl TypeError"
| "getitem (JStr s) k = Inl TypeError"
| "getitem (JArr xs) k = Inl TypeError"

text \<open>\<^verbatim>\<open>x * k\<close> for an integer \<open>k\<close>: integers (and booleans, which are integers in
  Python) multiply, strings and lists are repeated, \<open>None\<close> and dicts raise.\<close>

fun py_mul :: "json \<Rightarrow> int \<Rightarrow> error + json" where
  "py_mul (JInt n) k = Inr (JInt (n * k))"
| "py_mul (JBool b) k = Inr (JInt ((if b then 1 else 0) * k))"
| "py_mul (JStr s) k = Inr (JStr (concat (replicate (nat k) s)))"
| "py_mul (JArr xs) k = Inr (JArr (concat (replicate (nat k) xs)))"
| "py_mul JNull k = Inl TypeError"
| "py_mul (JObj kvs) k = Inl TypeError"

text \<open>\<^verbatim>\<open>iter(x)\<close>: a list yields its elements, a dict its keys, a string its characters;
  nothing else is iterable.\<close>

fun py_iter :: "json \<Rightarrow> error + json list" where
  "py_iter (JArr xs) = Inr xs"
| "py_iter (JObj kvs) = Inr (map (\<lambda>kv. JStr (fst kv)) kvs)"
| "py_iter (JStr s) = Inr (map (\<lambda>c. JStr [c]) s)"
| "py_iter JNull = Inl TypeError"
| "py_iter (JBool b) = Inl TypeError"
| "py_iter (JInt n) = Inl TypeError"

text \<open>\<^verbatim>\<open>len(x)\<close>.\<close>

fun py_len :: "json \<Rightarrow> error + int" where
  "py_len (JArr xs) = Inr (int (length xs))"
| "py_len (JObj kvs) = Inr (int (length kvs))"
| "py_len (JStr s) = Inr (int (length s))"
| "py_len JNull = Inl TypeError"
| "py_len (JBool b) = Inl TypeError"
| "py_len (JInt n) = Inl TypeError"

text \<open>\<^verbatim>\<open>x.items()\<close>: only a dict has the method.\<close>

fun py_items :: "json \<Rightarrow> error + (string \<times> json) list" where
  "py_items (JObj kvs) = Inr kvs"
| "py_items JNull = Inl AttributeError"
| "py_items (JBool b) = Inl AttributeError"
| "py_items (JInt n) = Inl AttributeError"
| "py_items (JStr s) = Inl AttributeError"
| "py_items (JArr xs) = Inl AttributeError"

text \<open>\<^verbatim>\<open>min(value, 1)\<close> in Python 2: the result is \<open>1\<close> when \<open>1 < value\<close> and \<open>value\<close>
  otherwise. Between values of different types, \<open>None\<close> is below everything and a number
  is below every value that is not a number.\<close>

fun py_min_1 :: "json \<Rightarrow> json" where
  "py_min_1 (JInt n) = JInt (min n 1)"
| "py_min_1 (JBool b) = JBool b"
| "py_min_1 JNull = JNull"
| "py_min_1 (JStr s) = JInt 1"
| "py_min_1 (JArr xs) = JInt 1"
| "py_min_1 (JObj kvs) = JInt 1"

text \<open>\<^verbatim>\<open>n + x\<close> for an integer \<open>n\<close>, as far as \<^verbatim>\<open>counts[key] += min(value, 1)\<close> can
  meet it: the right operand is an integer, a boolean or \<open>None\<close>.\<close>

fun py_add :: "int \<Rightarrow> json \<Rightarrow> error + int" where
  "py_add n (JInt m) = Inr (n + m)"
| "py_add n (JBool b) = Inr (n + (if b then 1 else 0))"
| "py_add n JNull = Inl TypeError"
| "py_add n (JStr s) = Inl TypeError"
| "py_add n (JArr xs) = Inl TypeError"
| "py_add n (JObj kvs) = Inl TypeError"

section \<open>The pool counters\<close>

text \<open>\<^verbatim>\<open>counts = defaultdict(lambda: 0)\<close>: a dict from field names to integers whose lookup
  of a missing key gives \<open>0\<close>.\<close>

type_synonym counts = "(string \<times> int) list"

definition dd_get :: "counts \<Rightarrow> string \<Rightarrow> int" where
  "dd_get counts k = (case map_of counts k of None \<Rightarrow> 0 | Some n \<Rightarrow> n)"

definition fields_pool :: "string list" where
  "fields_pool = [''num_objects_unfound'', ''num_objects_missing_on_primary'',
     ''num_deep_scrub_errors'', ''num_shallow_scrub_errors'',
     ''num_scrub_errors'', ''num_objects_degraded'']"

text \<open>The inner loop, \<^verbatim>\<open>for key, value in pool.items(): counts[key] += min(value, 1)\<close>.\<close>

fun count_items :: "(string \<times> json) list \<Rightarrow> counts \<Rightarrow> error + counts" where
  "count_items [] counts = Inr counts"
| "count_items (kv # kvs) counts =
     (case py_add (dd_get counts (fst kv)) (py_min_1 (snd kv)) of
        Inl e \<Rightarrow> Inl e
      | Inr n \<Rightarrow> count_items kvs (AList.update (fst kv) n counts))"

text \<open>The outer loop, \<^verbatim>\<open>for pool in imap(lambda p: p['stat_sum'], pools)\<close>: \<open>imap\<close> is
  lazy, so each pool's \<open>stat_sum\<close> is read when the loop reaches it.\<close>

fun count_pools :: "json list \<Rightarrow> counts \<Rightarrow> error + counts" where
  "count_pools [] counts = Inr counts"
| "count_pools (p # ps) counts =
     (case getitem p ''stat_sum'' of
        Inl e \<Rightarrow> Inl e
      | Inr pool \<Rightarrow>
          (case py_items pool of
             Inl e \<Rightarrow> Inl e
           | Inr kvs \<Rightarrow>
               (case count_items kvs counts of
                  Inl e \<Rightarrow> Inl e
                | Inr counts' \<Rightarrow> count_pools ps counts')))"

text \<open>\<^verbatim>\<open>for delkey in set(counts.keys()) - set(fields): del counts[delkey]\<close>.\<close>

definition drop_unknown :: "counts \<Rightarrow> counts" where
  "drop_unknown counts =
     fold AList.delete (filter (\<lambda>k. k \<notin> set fields_pool) (map fst counts)) counts"

text \<open>Lines 84 and 86 to 92 of \<^verbatim>\<open>_calculate_pool_counters\<close>: all of the method after
  \<^verbatim>\<open>pools = self.client.get_pg_pools()\<close>.\<close>

definition aggregate :: "json \<Rightarrow> error + counts" where
  "aggregate pools =
     (case py_iter pools of
        Inl e \<Rightarrow> Inl e
      | Inr ps \<Rightarrow>
          (case count_pools ps [] of
             Inl e \<Rightarrow> Inl e
           | Inr counts \<Rightarrow>
               (case py_len pools of
                  Inl e \<Rightarrow> Inl e
                | Inr n \<Rightarrow> Inr (AList.update ''total'' n (drop_unknown counts)))))"

text \<open>The pg pool dump as upstream sends it when every statistic is an integer: a list
  of pool objects, each with its \<open>stat_sum\<close> mapping.\<close>

definition stat_json :: "(string \<times> int) list \<Rightarrow> json" where
  "stat_json stat = JObj (map (\<lambda>kv. (fst kv, JInt (snd kv))) stat)"

definition pool_json :: "(string \<times> int) list \<Rightarrow> json" where
  "pool_json stat = JObj [(''stat_sum'', stat_json stat)]"

text \<open>The pool objects \<open>ps\<close> carry the integer statistics \<open>pools\<close>: the \<open>stat_sum\<close> of
  each object is the corresponding mapping, whatever else the object holds.\<close>

definition stat_sums :: "json list \<Rightarrow> (string \<times> int) list list \<Rightarrow> bool" where
  "stat_sums ps pools =
     list_all2 (\<lambda>p stat. getitem p ''stat_sum'' = Inr (stat_json stat)) ps pools"

text \<open>What one pool adds to the counter of field \<open>f\<close>: \<open>min(value, 1)\<close> when the pool's
  mapping has the field, nothing when it has not.\<close>

definition contribution :: "(string \<times> int) list \<Rightarrow> string \<Rightarrow> int" where
  "contribution stat f = (case map_of stat f of None \<Rightarrow> 0 | Some v \<Rightarrow> min v 1)"

text \<open>Every occurrence of key \<open>f\<close> in a list of items adds its clamped value; in a dict
  there is at most one.\<close>

definition occurrences :: "(string \<times> int) list \<Rightarrow> string \<Rightarrow> int" where
  "occurrences stat f = (\<Sum>kv\<leftarrow>stat. if fst kv = f then min (snd kv) 1 else 0)"

section \<open>HTTP, the database and the command's state\<close>

text \<open>A \<^verbatim>\<open>requests\<close> response: \<open>content\<close> is \<^verbatim>\<open>r.text\<close>, and \<open>decoded\<close> is what
  \<^verbatim>\<open>r.json()\<close> returns, \<open>None\<close> when the body is not JSON (\<^verbatim>\<open>r.json()\<close> raises
  \<open>ValueError\<close>). The network is a parameter: \<^verbatim>\<open>requests.get(url)\<close> raises or returns a
  response.\<close>

record response =
  status_code :: int
  headers :: "(string \<times> string) list"
  content :: string
  decoded :: "json option"

type_synonym http = "string \<Rightarrow> error + response"

text \<open>Modelled from the spec: the classes \<^verbatim>\<open>Cluster\<close> and \<^verbatim>\<open>ClusterStatus\<close> of
  \<^verbatim>\<open>ceph.models\<close> are not part of the sources. A cluster has a name, an API base URL and
  the four snapshot fields; \<open>cid\<close> is its primary key. A status record names its cluster
  and holds the report; status records are only ever appended.\<close>

record cluster =
  cid :: nat
  name :: string
  api_base_url :: string
  space :: json
  health :: json
  osds :: json
  counters :: json

record cluster_status =
  status_cluster :: nat
  report :: json

text \<open>The lines written to \<^verbatim>\<open>self.stdout\<close> and \<^verbatim>\<open>self.stderr\<close>, one constructor for
  each format string of the source.\<close>

datatype out_line =
    Updating nat
  | Refreshing string string
  | UpdatedStatus string
  | Completed

datatype err_line =
    LastNotSet
  | LastStatusCode int
  | LastHeaders "(string \<times> string) list"
  | LastContent string
  | Traceback error

text \<open>Everything the command can change: the two tables, \<^verbatim>\<open>self._last_response\<close>, the
  two output streams, and the URLs of the GET requests issued so far.\<close>

record state =
  db_clusters :: "cluster list"
  db_statuses :: "cluster_status list"
  last_response :: "response option"
  stdout :: "out_line list"
  stderr :: "err_line list"
  requested :: "string list"

text \<open>Modelled from the spec: \<^verbatim>\<open>cluster.save()\<close> writes the in-memory object over the
  row with its primary key (and inserts it when there is none);
  \<^verbatim>\<open>ClusterStatus(...).save()\<close> appends a row.\<close>

definition save_cluster :: "cluster \<Rightarrow> state \<Rightarrow> state" where
  "save_cluster c s =
     (if cid c \<in> cid ` set (db_clusters s)
      then s\<lparr>db_clusters := map (\<lambda>r. if cid r = cid c then c else r) (db_clusters s)\<rparr>
      else s\<lparr>db_clusters := db_clusters s @ [c]\<rparr>)"

definition save_status :: "cluster_status \<Rightarrow> state \<Rightarrow> state" where
  "save_status r s = s\<lparr>db_statuses := db_statuses s @ [r]\<rparr>"

definition write_out :: "out_line \<Rightarrow> state \<Rightarrow> state" where
  "write_out l s = s\<lparr>stdout := stdout s @ [l]\<rparr>"

definition write_err :: "err_line list \<Rightarrow> state \<Rightarrow> state" where
  "write_err ls s = s\<lparr>stderr := stderr s @ ls\<rparr>"

definition requests_get :: "http \<Rightarrow> string \<Rightarrow> state \<Rightarrow> (error + response) \<times> state" where
  "requests_get http url s = (http url, s\<lparr>requested := requested s @ [url]\<rparr>)"

definition response_json :: "response \<Rightarrow> error + json" where
  "response_json r = (case decoded r of None \<Rightarrow> Inl ValueError | Some j \<Rightarrow> Inr j)"

text \<open>Sequencing: an exception skips the rest.\<close>

definition bind_r :: "error + 'a \<Rightarrow> ('a \<Rightarrow> error + 'b) \<Rightarrow> error + 'b" where
  "bind_r r f = (case r of Inl e \<Rightarrow> Inl e | Inr x \<Rightarrow> f x)"

definition then_pure :: "(error + 'a) \<times> state \<Rightarrow> ('a \<Rightarrow> error + 'b) \<Rightarrow> (error + 'b) \<times> state" where
  "then_pure rs f = (bind_r (fst rs) f, snd rs)"

section \<open>CephRestClient\<close>

text \<open>The client is its URL. \<^verbatim>\<open>self.__url[-1]\<close> raises \<open>IndexError\<close> on the empty
  string.\<close>

definition CephRestClient_init :: "string \<Rightarrow> error + string" where
  "CephRestClient_init url =
     (if url = [] then Inl IndexError
      else if last url \<noteq> CHR ''/'' then Inr (url @ ''/'')
      else Inr url)"

definition query :: "http \<Rightarrow> string \<Rightarrow> string \<Rightarrow> state \<Rightarrow> (error + json) \<times> state" where
  "query http client endpoint s =
     (case requests_get http (client @ endpoint) s of
        (Inl e, s') \<Rightarrow> (Inl e, s')
      | (Inr r, s') \<Rightarrow> (response_json r, s'))"

definition get_space_stats :: "http \<Rightarrow> string \<Rightarrow> state \<Rightarrow> (error + json) \<times> state" where
  "get_space_stats http client s =
     then_pure (query http client ''df'' s) (\<lambda>j. getitem j ''output'')"

definition get_health :: "http \<Rightarrow> string \<Rightarrow> state \<Rightarrow> (error + json) \<times> state" where
  "get_health http client s =
     then_pure (query http client ''health?detail'' s) (\<lambda>j. getitem j ''output'')"

definition get_osds :: "http \<Rightarrow> string \<Rightarrow> state \<Rightarrow> (error + json) \<times> state" where
  "get_osds http client s =
     then_pure (query http client ''osd/dump'' s) (\<lambda>j. getitem j ''output'')"

definition get_pg_pools :: "http \<Rightarrow> string \<Rightarrow> state \<Rightarrow> (error + json) \<times> state" where
  "get_pg_pools http client s =
     then_pure (query http client ''pg/dump?dumpcontents=pools'' s) (\<lambda>j. getitem j ''output'')"

section \<open>ModelAdapter\<close>

text \<open>\<^verbatim>\<open>self.cluster.space = {...}\<close>: the three values are computed in the order of the
  dict display, and the field is assigned only when all three are there.\<close>

definition populate_space :: "http \<Rightarrow> string \<Rightarrow> cluster \<Rightarrow> state \<Rightarrow> (error + cluster) \<times> state" where
  "populate_space http client c s =
     then_pure (get_space_stats http client s) (\<lambda>out.
       bind_r (getitem out ''stats'') (\<lambda>data.
       bind_r (bind_r (getitem data ''total_used'') (\<lambda>v. py_mul v 1024)) (\<lambda>used.
       bind_r (bind_r (getitem data ''total_space'') (\<lambda>v. py_mul v 1024)) (\<lambda>capacity.
       bind_r (bind_r (getitem data ''total_avail'') (\<lambda>v. py_mul v 1024)) (\<lambda>free.
       Inr (c\<lparr>space := JObj [(''used_bytes'', used), (''capacity_bytes'', capacity),
                              (''free_bytes'', free)]\<rparr>))))))"

definition populate_health :: "http \<Rightarrow> string \<Rightarrow> cluster \<Rightarrow> state \<Rightarrow> (error + cluster) \<times> state" where
  "populate_health http client c s =
     then_pure (get_health http client s) (\<lambda>data.
       bind_r (getitem data ''overall_status'') (\<lambda>overall.
       bind_r (getitem data ''detail'') (\<lambda>detail.
       bind_r (getitem data ''summary'') (\<lambda>summary.
       Inr (c\<lparr>health := JObj [(''overall_status'', overall), (''detail'', detail),
                               (''summary'', summary)]\<rparr>)))))"

definition populate_osds :: "http \<Rightarrow> string \<Rightarrow> cluster \<Rightarrow> state \<Rightarrow> (error + cluster) \<times> state" where
  "populate_osds http client c s =
     then_pure (get_osds http client s) (\<lambda>data.
       bind_r (getitem data ''osds'') (\<lambda>v. Inr (c\<lparr>osds := v\<rparr>)))"

definition calculate_pool_counters :: "http \<Rightarrow> string \<Rightarrow> state \<Rightarrow> (error + counts) \<times> state" where
  "calculate_pool_counters http client s = then_pure (get_pg_pools http client s) aggregate"

definition counts_json :: "counts \<Rightarrow> json" where
  "counts_json counts = JObj (map (\<lambda>kv. (fst kv, JInt (snd kv))) counts)"

definition populate_counters :: "http \<Rightarrow> string \<Rightarrow> cluster \<Rightarrow> state \<Rightarrow> (error + cluster) \<times> state" where
  "populate_counters http client c s =
     then_pure (calculate_pool_counters http client s) (\<lambda>counts.
       Inr (c\<lparr>counters := JObj [(''pool'', counts_json counts)]\<rparr>))"

text \<open>\<^verbatim>\<open>dir(self)\<close> is the list of the object's attribute names, sorted as strings. The
  names below are those the class body and \<^verbatim>\<open>__init__\<close> define, in the order of the source;
  the names inherited from \<^verbatim>\<open>object\<close> all begin with two underscores and none with
  \<^verbatim>\<open>_populate_\<close>.\<close>

definition ModelAdapter_names :: "string list" where
  "ModelAdapter_names = [''__init__'', ''refresh'', ''_populate_space'', ''_populate_health'',
     ''_populate_osds'', ''_populate_counters'', ''_calculate_pool_counters'',
     ''client'', ''cluster'']"

definition dir_ModelAdapter :: "string list" where
  "dir_ModelAdapter = sort ModelAdapter_names"

definition startswith :: "string \<Rightarrow> string \<Rightarrow> bool" where
  "startswith a p = (take (length p) a = p)"

definition populate_attrs :: "string list" where
  "populate_attrs = filter (\<lambda>a. startswith a ''_populate_'') dir_ModelAdapter"

text \<open>\<^verbatim>\<open>getattr(self, attr)()\<close>.\<close>

definition call_attr :: "http \<Rightarrow> string \<Rightarrow> string \<Rightarrow> cluster \<Rightarrow> state \<Rightarrow> (error + cluster) \<times> state" where
  "call_attr http client attr c s =
     (if attr = ''_populate_space'' then populate_space http client c s
      else if attr = ''_populate_health'' then populate_health http client c s
      else if attr = ''_populate_osds'' then populate_osds http client c s
      else if attr = ''_populate_counters'' then populate_counters http client c s
      else (Inl AttributeError, s))"

text \<open>The loop \<^verbatim>\<open>for attr in attrs: getattr(self, attr)()\<close>. The cluster object is
  returned in every case: a step that raises leaves it as the steps before have made it.\<close>

fun call_attrs :: "http \<Rightarrow> string \<Rightarrow> string list \<Rightarrow> cluster \<Rightarrow> state \<Rightarrow> (error + unit) \<times> cluster \<times> state" where
  "call_attrs http client [] c s = (Inr (), c, s)"
| "call_attrs http client (a # as) c s =
     (case call_attr http client a c s of
        (Inl e, s') \<Rightarrow> (Inl e, c, s')
      | (Inr c', s') \<Rightarrow> call_attrs http client as c' s')"

definition refresh :: "http \<Rightarrow> string \<Rightarrow> cluster \<Rightarrow> state \<Rightarrow> (error + unit) \<times> cluster \<times> state" where
  "refresh http client c s =
     (case call_attrs http client populate_attrs c s of
        (Inl e, c', s') \<Rightarrow> (Inl e, c', s')
      | (Inr u, c', s') \<Rightarrow> (Inr (), c', save_cluster c' s'))"

section \<open>Command\<close>

text \<open>\<^verbatim>\<open>Command.__init__\<close> over a database: no response seen yet, nothing written.\<close>

definition Command_init :: "cluster list \<Rightarrow> cluster_status list \<Rightarrow> state" where
  "Command_init rows statuses =
     \<lparr>db_clusters = rows, db_statuses = statuses, last_response = None,
      stdout = [], stderr = [], requested = []\<rparr>"

text \<open>\<^verbatim>\<open>if not r\<close>: a \<^verbatim>\<open>requests\<close> response is false when its status code is an error
  (400 to 599), as \<open>None\<close> is.\<close>

definition response_ok :: "response \<Rightarrow> bool" where
  "response_ok r = (\<not> (400 \<le> status_code r \<and> status_code r < 600))"

definition print_response :: "response option \<Rightarrow> err_line list" where
  "print_response r =
     (case r of
        None \<Rightarrow> [LastNotSet]
      | Some r' \<Rightarrow>
          if \<not> response_ok r' then [LastNotSet]
          else [LastStatusCode (status_code r'), LastHeaders (headers r'),
                LastContent (content r')])"

text \<open>\<^verbatim>\<open>url_base[-1]\<close> raises \<open>IndexError\<close> on the empty string, and
  \<^verbatim>\<open>url_base.append('/')\<close> raises \<open>AttributeError\<close>: a string has no \<open>append\<close>.\<close>

definition cluster_query :: "http \<Rightarrow> cluster \<Rightarrow> string \<Rightarrow> state \<Rightarrow> (error + json) \<times> state" where
  "cluster_query http c url s =
     (let url_base = api_base_url c in
      if url_base = [] then (Inl IndexError, s)
      else if last url_base \<noteq> CHR ''/'' then (Inl AttributeError, s)
      else (case requests_get http (url_base @ url) s of
              (Inl e, s') \<Rightarrow> (Inl e, s')
            | (Inr r, s') \<Rightarrow> (response_json r, s'\<lparr>last_response := Some r\<rparr>)))"

definition refresh_cluster_status :: "http \<Rightarrow> cluster \<Rightarrow> state \<Rightarrow> (error + unit) \<times> state" where
  "refresh_cluster_status http c s =
     (case cluster_query http c ''status'' s of
        (Inl e, s') \<Rightarrow> (Inl e, s')
      | (Inr result, s') \<Rightarrow>
          (case getitem result ''output'' of
             Inl e \<Rightarrow> (Inl e, s')
           | Inr rep \<Rightarrow>
               (Inr (), write_out (UpdatedStatus (name c))
                          (save_status \<lparr>status_cluster = cid c, report = rep\<rparr> s'))))"

text \<open>The body of the loop of \<^verbatim>\<open>handle\<close> for one cluster. Only
  \<^verbatim>\<open>_refresh_cluster_status\<close> is inside the \<^verbatim>\<open>try\<close>.\<close>

definition handle_cluster :: "http \<Rightarrow> cluster \<Rightarrow> state \<Rightarrow> (error + unit) \<times> state" where
  "handle_cluster http c s =
     (case CephRestClient_init (api_base_url c) of
        Inl e \<Rightarrow> (Inl e, s)
      | Inr client \<Rightarrow>
          (case refresh http client c s of
             (Inl e, c', s') \<Rightarrow> (Inl e, s')
           | (Inr u, c', s') \<Rightarrow>
               (let s1 = write_out (Refreshing (name c') (api_base_url c')) s' in
                case refresh_cluster_status http c' s1 of
                  (Inl e, s2) \<Rightarrow>
                    (Inr (), write_err (print_response (last_response s2) @ [Traceback e]) s2)
                | (Inr u', s2) \<Rightarrow> (Inr (), s2))))"

fun handle_loop :: "http \<Rightarrow> cluster list \<Rightarrow> state \<Rightarrow> (error + unit) \<times> state" where
  "handle_loop http [] s = (Inr (), s)"
| "handle_loop http (c # cs) s =
     (case handle_cluster http c s of
        (Inl e, s') \<Rightarrow> (Inl e, s')
      | (Inr u, s') \<Rightarrow> handle_loop http cs s')"

definition handle :: "http \<Rightarrow> state \<Rightarrow> (error + unit) \<times> state" where
  "handle http s =
     (let clusters = db_clusters s;
          s0 = write_out (Updating (length clusters)) s
      in case handle_loop http clusters s0 of
           (Inl e, s') \<Rightarrow> (Inl e, s')
         | (Inr u, s') \<Rightarrow> (Inr (), write_out Completed s'))"

section \<open>Notions used to state the properties\<close>

text \<open>The endpoint each population method reads, and a state with further GET requests
  recorded.\<close>

definition attr_endpoint :: "string \<Rightarrow> string" where
  "attr_endpoint a =
     (if a = ''_populate_space'' then ''df''
      else if a = ''_populate_health'' then ''health?detail''
      else if a = ''_populate_osds'' then ''osd/dump''
      else ''pg/dump?dumpcontents=pools'')"

definition logged :: "string list \<Rightarrow> state \<Rightarrow> state" where
  "logged urls s = s\<lparr>requested := requested s @ urls\<rparr>"

text \<open>The response that the status request of a cluster returns, when the request is issued
  and returns: \<^verbatim>\<open>_cluster_query\<close> raises before the GET when the base URL is empty or does
  not end with a slash.\<close>

definition status_get :: "http \<Rightarrow> cluster \<Rightarrow> response option" where
  "status_get http c =
     (if api_base_url c = [] \<or> last (api_base_url c) \<noteq> CHR ''/'' then None
      else (case http (api_base_url c @ ''status'') of Inl e \<Rightarrow> None | Inr r \<Rightarrow> Some r))"

section \<open>Example inputs\<close>

text \<open>The pool statistics of the specification's example: two pools report degraded
  objects (3 and 0), the third reports an unrecognized field only.\<close>

definition example_pools :: "(string \<times> int) list list" where
  "example_pools =
     [[(''num_objects_degraded'', 3)], [(''num_objects_degraded'', 0)], [(''other'', 5)]]"

text \<open>A pool dump in which no pool reports a recognized field.\<close>

definition unknown_pools :: "(string \<times> int) list list" where
  "unknown_pools = [[(''num_objects'', 7), (''num_bytes'', 4096)], [(''num_objects'', 0)]]"

text \<open>A server: a table from URLs to answers; a URL that is not in the table cannot be
  reached. Every endpoint of a healthy cluster answers with status 200 and a JSON body of the
  expected shape; the text of each response is its URL.\<close>

definition ok_response :: "string \<Rightarrow> json \<Rightarrow> response" where
  "ok_response txt body =
     \<lparr>status_code = 200, headers = [(''content-type'', ''application/json'')],
      content = txt, decoded = Some body\<rparr>"

definition df_body :: json where
  "df_body = JObj [(''output'', JObj [(''stats'',
     JObj [(''total_used'', JInt 5), (''total_space'', JInt 100), (''total_avail'', JInt 95)])])]"

definition health_body :: json where
  "health_body = JObj [(''output'', JObj [(''overall_status'', JStr ''HEALTH_OK''),
     (''detail'', JArr []), (''summary'', JArr [])])]"

definition osd_body :: json where
  "osd_body = JObj [(''output'', JObj [(''osds'', JArr [JObj [(''osd'', JInt 0)]])])]"

definition pg_body :: json where
  "pg_body = JObj [(''output'', JArr (map pool_json example_pools))]"

definition status_body :: json where
  "status_body = JObj [(''output'', JStr ''status report'')]"

definition routes :: "string \<Rightarrow> (string \<times> (error + response)) list" where
  "routes base =
     [(base @ ''df'', Inr (ok_response (base @ ''df'') df_body)),
      (base @ ''health?detail'', Inr (ok_response (base @ ''health?detail'') health_body)),
      (base @ ''osd/dump'', Inr (ok_response (base @ ''osd/dump'') osd_body)),
      (base @ ''pg/dump?dumpcontents=pools'',
         Inr (ok_response (base @ ''pg/dump?dumpcontents=pools'') pg_body)),
      (base @ ''status'', Inr (ok_response (base @ ''status'') status_body))]"

definition serve :: "(string \<times> (error + response)) list \<Rightarrow> http" where
  "serve table url = (case map_of table url of None \<Rightarrow> Inl ConnectionError | Some r \<Rightarrow> r)"

definition without :: "string \<Rightarrow> (string \<times> (error + response)) list \<Rightarrow> (string \<times> (error + response)) list" where
  "without url table = filter (\<lambda>kv. fst kv \<noteq> url) table"

text \<open>Registered clusters, each with a snapshot saved by an earlier cycle. The third has the
  base URL of the specification's example, without a trailing slash.\<close>

definition old_snapshot :: "nat \<Rightarrow> string \<Rightarrow> string \<Rightarrow> cluster" where
  "old_snapshot i n url =
     \<lparr>cid = i, name = n, api_base_url = url,
      space = JObj [(''used_bytes'', JInt 1024), (''capacity_bytes'', JInt 2048),
                    (''free_bytes'', JInt 1024)],
      health = JObj [(''overall_status'', JStr ''HEALTH_WARN''), (''detail'', JArr []),
                     (''summary'', JArr [])],
      osds = JArr [],
      counters = JObj [(''pool'', JObj [(''total'', JInt 0)])]\<rparr>"

definition alpha :: cluster where
  "alpha = old_snapshot 1 ''alpha'' ''http://alpha:5000/''"

definition beta :: cluster where
  "beta = old_snapshot 2 ''beta'' ''http://beta:5000/''"

definition host_cluster :: cluster where
  "host_cluster = old_snapshot 3 ''host'' ''http://host:1234''"

text \<open>Networks: all endpoints up; the pool dump of \<open>alpha\<close> down; the health endpoint of
  \<open>alpha\<close> down; the status endpoint of \<open>beta\<close> down.\<close>

definition http_ok :: http where
  "http_ok = serve (routes ''http://alpha:5000/'' @ routes ''http://beta:5000/'')"

definition http_pg_down :: http where
  "http_pg_down = serve (without ''http://alpha:5000/pg/dump?dumpcontents=pools''
      (routes ''http://alpha:5000/'' @ routes ''http://beta:5000/''))"

definition http_health_down :: http where
  "http_health_down = serve (without ''http://alpha:5000/health?detail''
      (routes ''http://alpha:5000/'' @ routes ''http://beta:5000/''))"

definition http_beta_status_down :: http where
  "http_beta_status_down = serve (without ''http://beta:5000/status''
      (routes ''http://alpha:5000/'' @ routes ''http://beta:5000/''))"

text \<open>The command's state when \<open>alpha\<close> has been processed and its status response is the
  last one seen.\<close>

definition state_after_alpha :: state where
  "state_after_alpha =
     (Command_init [alpha, beta] [])\<lparr>last_response :=
        Some (ok_response ''http://alpha:5000/status'' status_body)\<rparr>"

section \<open>Properties of the pool counters\<close>

lemma dd_get_update: "dd_get (AList.update k v c) f = (if f = k then v else dd_get c f)"
  by (simp add: dd_get_def update_conv')

lemma dd_get_Nil: "dd_get [] f = 0"
  by (simp add: dd_get_def)

lemma count_items_ints:
  "\<exists>counts'. count_items (map (\<lambda>kv. (fst kv, JInt (snd kv))) stat) counts = Inr counts'
     \<and> (\<forall>f. dd_get counts' f = dd_get counts f + occurrences stat f)"
proof (induction stat arbitrary: counts)
  case Nil
  show ?case by (simp add: occurrences_def)
next
  case (Cons kv stat)
  let ?c = "AList.update (fst kv) (dd_get counts (fst kv) + min (snd kv) 1) counts"
  from Cons.IH [of ?c] obtain counts' where
    a: "count_items (map (\<lambda>kv. (fst kv, JInt (snd kv))) stat) ?c = Inr counts'"
    and b: "\<forall>f. dd_get counts' f = dd_get ?c f + occurrences stat f" by blast
  show ?case using a b by (auto simp: dd_get_update occurrences_def)
qed

lemma occurrences_distinct:
  "distinct (map fst stat) \<Longrightarrow> occurrences stat f = contribution stat f"
proof (induction stat)
  case Nil
  show ?case by (simp add: occurrences_def contribution_def)
next
  case (Cons kv stat)
  show ?case
  proof (cases "fst kv = f")
    case True
    with Cons.prems have "f \<notin> fst ` set stat" by auto
    then have "map_of stat f = None" by (simp add: map_of_eq_None_iff)
    with Cons True show ?thesis
      by (cases kv) (auto simp: occurrences_def contribution_def)
  next
    case False
    with Cons show ?thesis
      by (cases kv) (auto simp: occurrences_def contribution_def)
  qed
qed

lemma getitem_pool_json: "getitem (pool_json p) ''stat_sum'' = Inr (stat_json p)"
  by (simp add: pool_json_def)

lemma stat_sums_pools_json: "stat_sums (map pool_json pools) pools"
  by (simp add: stat_sums_def list_all2_map1 getitem_pool_json list_all2_same)

lemma py_items_stat_json:
  "py_items (stat_json p) = Inr (map (\<lambda>kv. (fst kv, JInt (snd kv))) p)"
  by (simp add: stat_json_def)

lemma count_pools_ints:
  assumes "list_all2 (\<lambda>p stat. getitem p ''stat_sum'' = Inr (stat_json stat)) ps pools"
  shows "\<exists>counts'. count_pools ps counts = Inr counts'
     \<and> (\<forall>f. dd_get counts' f = dd_get counts f + (\<Sum>p\<leftarrow>pools. occurrences p f))"
  using assms
proof (induction ps pools arbitrary: counts rule: list_all2_induct)
  case Nil
  show ?case by simp
next
  case (Cons p ps stat pools)
  obtain c1 where
    a: "count_items (map (\<lambda>kv. (fst kv, JInt (snd kv))) stat) counts = Inr c1"
    and b: "\<forall>f. dd_get c1 f = dd_get counts f + occurrences stat f"
    using count_items_ints by blast
  from Cons.IH [of c1] obtain c2 where
    c: "count_pools ps c1 = Inr c2"
    and d: "\<forall>f. dd_get c2 f = dd_get c1 f + (\<Sum>p\<leftarrow>pools. occurrences p f)" by blast
  show ?case using Cons.hyps(1) a b c d
    by (simp add: py_items_stat_json add.assoc)
qed

lemma map_of_fold_delete:
  "map_of (fold AList.delete ks c) k = (if k \<in> set ks then None else map_of c k)"
  by (induction ks arbitrary: c) (auto simp: delete_conv')

lemma map_of_drop_unknown:
  "map_of (drop_unknown c) k = (if k \<in> set fields_pool then map_of c k else None)"
  by (auto simp: drop_unknown_def map_of_fold_delete map_of_eq_None_iff)

lemma dd_get_drop_unknown:
  "dd_get (drop_unknown c) k = (if k \<in> set fields_pool then dd_get c k else 0)"
  by (simp add: dd_get_def map_of_drop_unknown)

lemma keys_drop_unknown: "fst ` set (drop_unknown c) \<subseteq> set fields_pool"
proof
  fix k assume "k \<in> fst ` set (drop_unknown c)"
  then have "map_of (drop_unknown c) k \<noteq> None" by (simp add: map_of_eq_None_iff)
  then show "k \<in> set fields_pool" by (simp add: map_of_drop_unknown split: if_splits)
qed

lemma total_not_field: "''total'' \<notin> set fields_pool"
  by (simp add: fields_pool_def)

text \<open>Whenever the aggregation returns, the keys of its result are recognized fields or
  \<open>total\<close>, and on a list of pools \<open>total\<close> is the length of the list.\<close>

lemma aggregate_keys:
  "aggregate pools = Inr counts \<Longrightarrow> fst ` set counts \<subseteq> set fields_pool \<union> {''total''}"
proof -
  assume "aggregate pools = Inr counts"
  then obtain c n where "counts = AList.update ''total'' n (drop_unknown c)"
    by (auto simp: aggregate_def split: sum.splits)
  then have "fst ` set counts = {''total''} \<union> fst ` set (drop_unknown c)"
    by (simp add: dom_update)
  then show ?thesis using keys_drop_unknown [of c] by blast
qed

lemma aggregate_total:
  "aggregate (JArr ps) = Inr counts \<Longrightarrow> map_of counts ''total'' = Some (int (length ps))"
  by (auto simp: aggregate_def update_conv' split: sum.splits)

text \<open>On pool objects whose statistics are integers the aggregation returns, and each
  recognized field of the result is the sum of what the pools add to it.\<close>

lemma aggregate_ints:
  assumes "stat_sums ps pools"
  shows "\<exists>counts. aggregate (JArr ps) = Inr counts
     \<and> (\<forall>f. f \<in> set fields_pool \<longrightarrow> dd_get counts f = (\<Sum>p\<leftarrow>pools. occurrences p f))"
proof -
  obtain c where
    a: "count_pools ps [] = Inr c"
    and b: "\<forall>f. dd_get c f = dd_get [] f + (\<Sum>p\<leftarrow>pools. occurrences p f)"
    using count_pools_ints assms unfolding stat_sums_def by blast
  let ?r = "AList.update ''total'' (int (length ps)) (drop_unknown c)"
  have "aggregate (JArr ps) = Inr ?r"
    using a by (simp add: aggregate_def)
  moreover have "\<forall>f. f \<in> set fields_pool \<longrightarrow> dd_get ?r f = (\<Sum>p\<leftarrow>pools. occurrences p f)"
    using b total_not_field by (auto simp: dd_get_update dd_get_drop_unknown dd_get_Nil)
  ultimately show ?thesis by blast
qed

text \<open>
  Claim C6. On every sequence of pool objects that carry integer statistics the aggregation
  returns; whenever it returns on a sequence of pools, the \<open>total\<close> entry of the counter
  mapping is the number of pools in the sequence, whatever the mappings hold; and for the
  empty sequence the result is the mapping with \<open>total\<close> equal to 0 alone.
\<close>

theorem aggregate_total_is_pool_count:
  "(stat_sums ps pools \<longrightarrow> (\<exists>counts. aggregate (JArr ps) = Inr counts))
   \<and> (\<forall>counts. aggregate (JArr ps) = Inr counts
         \<longrightarrow> map_of counts ''total'' = Some (int (length ps)))
   \<and> aggregate (JArr []) = Inr [(''total'', 0)]"
proof -
  have "aggregate (JArr []) = Inr [(''total'', 0)]"
    by (simp add: aggregate_def drop_unknown_def)
  then show ?thesis using aggregate_ints [of ps pools] aggregate_total [of ps] by blast
qed

theorem aggregate_total_is_pool_count_witness:
  "stat_sums (map pool_json example_pools) example_pools
   \<and> (\<exists>counts. aggregate (JArr (map pool_json example_pools)) = Inr counts
         \<and> map_of counts ''total'' = Some 3)"
proof -
  have h: "stat_sums (map pool_json example_pools) example_pools"
    by (rule stat_sums_pools_json)
  have "length (map pool_json example_pools) = 3"
    by (simp add: example_pools_def)
  then show ?thesis
    using h aggregate_total_is_pool_count [of "map pool_json example_pools" example_pools]
    by auto
qed

lemma sum_occurrences_distinct:
  "\<forall>p\<in>set pools. distinct (map fst p) \<Longrightarrow>
     (\<Sum>p\<leftarrow>pools. occurrences p f) = (\<Sum>p\<leftarrow>pools. contribution p f)"
  by (induction pools) (simp_all add: occurrences_distinct)

text \<open>
  Claim C3. On every sequence of pool objects that carry integer statistics (each mapping a
  dict, so with distinct keys) the aggregation returns, and for each of the six recognized
  fields the counter read from the result is the sum over the pools of \<open>min(value, 1)\<close>
  where the pool's mapping has the field and of 0 where it has not. In particular a pool
  whose field has a value above 1 adds exactly 1.
\<close>

theorem pool_counter_is_clamped_sum:
  assumes "stat_sums ps pools" and "\<forall>p\<in>set pools. distinct (map fst p)"
  shows "(\<exists>counts. aggregate (JArr ps) = Inr counts
            \<and> (\<forall>f\<in>set fields_pool. dd_get counts f = (\<Sum>p\<leftarrow>pools. contribution p f)))
         \<and> (\<forall>p\<in>set pools. \<forall>f v. map_of p f = Some v \<and> 1 < v \<longrightarrow> contribution p f = 1)"
proof -
  obtain counts where
    a: "aggregate (JArr ps) = Inr counts"
    and b: "\<forall>f. f \<in> set fields_pool \<longrightarrow> dd_get counts f = (\<Sum>p\<leftarrow>pools. occurrences p f)"
    using aggregate_ints [OF assms(1)] by blast
  have "\<forall>f\<in>set fields_pool. dd_get counts f = (\<Sum>p\<leftarrow>pools. contribution p f)"
    using b sum_occurrences_distinct [OF assms(2)] by simp
  moreover have "\<forall>p\<in>set pools. \<forall>f v. map_of p f = Some v \<and> 1 < v \<longrightarrow> contribution p f = 1"
    by (simp add: contribution_def)
  ultimately show ?thesis using a by blast
qed

theorem pool_counter_is_clamped_sum_witness:
  "stat_sums (map pool_json example_pools) example_pools
   \<and> list_all (\<lambda>p. distinct (map fst p)) example_pools
   \<and> (\<exists>counts. aggregate (JArr (map pool_json example_pools)) = Inr counts
         \<and> dd_get counts ''num_objects_degraded'' = 1
         \<and> dd_get counts ''num_scrub_errors'' = 0)
   \<and> contribution [(''num_objects_degraded'', 3)] ''num_objects_degraded'' = 1"
proof -
  have h1: "stat_sums (map pool_json example_pools) example_pools"
    by (rule stat_sums_pools_json)
  have h2: "\<forall>p\<in>set example_pools. distinct (map fst p)"
    by (simp add: example_pools_def)
  have d: "''num_objects_degraded'' \<in> set fields_pool"
    and e: "''num_scrub_errors'' \<in> set fields_pool"
    by (simp_all add: fields_pool_def)
  have s1: "(\<Sum>p\<leftarrow>example_pools. contribution p ''num_objects_degraded'') = 1"
    by (simp add: example_pools_def contribution_def)
  have s2: "(\<Sum>p\<leftarrow>example_pools. contribution p ''num_scrub_errors'') = 0"
    by (simp add: example_pools_def contribution_def)
  have m: "[(''num_objects_degraded'', 3)] \<in> set example_pools"
    by (simp add: example_pools_def)
  from pool_counter_is_clamped_sum [OF h1 h2] obtain counts where
    a: "aggregate (JArr (map pool_json example_pools)) = Inr counts"
    and b: "\<forall>f\<in>set fields_pool. dd_get counts f = (\<Sum>p\<leftarrow>example_pools. contribution p f)"
    and c: "\<forall>p\<in>set example_pools. \<forall>f v. map_of p f = Some v \<and> 1 < v \<longrightarrow> contribution p f = 1"
    by blast
  have "dd_get counts ''num_objects_degraded'' = 1" using b d s1 by simp
  moreover have "dd_get counts ''num_scrub_errors'' = 0" using b e s2 by simp
  moreover have "contribution [(''num_objects_degraded'', 3)] ''num_objects_degraded'' = 1"
    using c m by simp
  moreover have "list_all (\<lambda>p. distinct (map fst p)) example_pools"
    using h2 by (simp add: list_all_iff)
  ultimately show ?thesis using a h1 by blast
qed

lemma count_items_keys:
  "count_items kvs c = Inr c' \<Longrightarrow> fst ` set c' = fst ` set c \<union> fst ` set kvs"
proof (induction kvs arbitrary: c)
  case Nil
  then show ?case by simp
next
  case (Cons kv kvs)
  then show ?case
    by (auto simp: dom_update split: sum.splits)
qed

lemma count_pools_keys:
  assumes "list_all2 (\<lambda>p stat. getitem p ''stat_sum'' = Inr (stat_json stat)) ps pools"
  shows "count_pools ps c = Inr c' \<Longrightarrow>
         fst ` set c' = fst ` set c \<union> (\<Union>p\<in>set pools. fst ` set p)"
  using assms
proof (induction ps pools arbitrary: c rule: list_all2_induct)
  case Nil
  then show ?case by simp
next
  case (Cons p ps stat pools)
  from Cons.prems Cons.hyps(1) obtain c1 where
    a: "count_items (map (\<lambda>kv. (fst kv, JInt (snd kv))) stat) c = Inr c1"
    and b: "count_pools ps c1 = Inr c'"
    by (auto simp: py_items_stat_json split: sum.splits)
  have "fst ` set c1 = fst ` set c \<union> fst ` set stat"
    using count_items_keys [OF a] by (simp add: image_image)
  then show ?case using Cons.IH [OF b] by auto
qed

lemma drop_unknown_no_fields:
  assumes "fst ` set c \<inter> set fields_pool = {}"
  shows "drop_unknown c = []"
proof -
  have "map_of (drop_unknown c) k = None" for k
    using assms by (auto simp: map_of_drop_unknown map_of_eq_None_iff)
  then have "map_of (drop_unknown c) = Map.empty" by (simp add: fun_eq_iff)
  then show ?thesis by simp
qed

text \<open>
  Claim C7. Whenever the aggregation returns, on any decoded body, the keys of the returned
  mapping are among the six recognized fields and \<open>total\<close>: every other upstream field is
  gone. On pool objects with integer statistics none of which has a recognized field, the
  aggregation returns the mapping that holds \<open>total\<close> alone, and each of the six named
  counters reads 0 from it.
\<close>

theorem aggregate_only_named_fields:
  "(\<forall>counts. aggregate pools = Inr counts
       \<longrightarrow> fst ` set counts \<subseteq> set fields_pool \<union> {''total''})
   \<and> (stat_sums ps stats \<and> (\<forall>p\<in>set stats. \<forall>f\<in>set fields_pool. f \<notin> fst ` set p)
       \<longrightarrow> aggregate (JArr ps) = Inr [(''total'', int (length ps))]
           \<and> (\<forall>f\<in>set fields_pool. dd_get [(''total'', int (length ps))] f = 0))"
proof -
  have 1: "\<forall>counts. aggregate pools = Inr counts
       \<longrightarrow> fst ` set counts \<subseteq> set fields_pool \<union> {''total''}"
    using aggregate_keys by blast
  have 2: "aggregate (JArr ps) = Inr [(''total'', int (length ps))]"
    if h: "stat_sums ps stats" and n: "\<forall>p\<in>set stats. \<forall>f\<in>set fields_pool. f \<notin> fst ` set p"
  proof -
    from aggregate_ints [OF h] obtain counts where "aggregate (JArr ps) = Inr counts" by blast
    then obtain c where c: "count_pools ps [] = Inr c"
      and r: "aggregate (JArr ps) = Inr (AList.update ''total'' (int (length ps)) (drop_unknown c))"
      by (auto simp: aggregate_def split: sum.splits)
    have "fst ` set c = (\<Union>p\<in>set stats. fst ` set p)"
      using count_pools_keys [OF h [unfolded stat_sums_def] c] by simp
    then have "fst ` set c \<inter> set fields_pool = {}" using n by blast
    then show ?thesis using r by (simp add: drop_unknown_no_fields)
  qed
  have 3: "\<forall>f\<in>set fields_pool. dd_get [(''total'', int (length ps))] f = 0"
    using total_not_field by (auto simp: dd_get_def)
  show ?thesis using 1 2 3 by blast
qed

theorem aggregate_only_named_fields_witness:
  "stat_sums (map pool_json unknown_pools) unknown_pools
   \<and> list_all (\<lambda>p. list_all (\<lambda>f. f \<notin> fst ` set p) fields_pool) unknown_pools
   \<and> aggregate (JArr (map pool_json unknown_pools)) = Inr [(''total'', 2)]
   \<and> dd_get [(''total'', 2)] ''num_objects_unfound'' = 0
   \<and> dd_get [(''total'', 2)] ''num_objects_degraded'' = 0
   \<and> fst ` set [(''total'', 2::int)] \<subseteq> set fields_pool \<union> {''total''}"
proof -
  have h1: "stat_sums (map pool_json unknown_pools) unknown_pools"
    by (rule stat_sums_pools_json)
  have h2: "\<forall>p\<in>set unknown_pools. \<forall>f\<in>set fields_pool. f \<notin> fst ` set p"
    by (simp add: unknown_pools_def fields_pool_def)
  have l: "int (length (map pool_json unknown_pools)) = 2"
    by (simp add: unknown_pools_def)
  have u: "''num_objects_unfound'' \<in> set fields_pool"
    and d: "''num_objects_degraded'' \<in> set fields_pool"
    by (simp_all add: fields_pool_def)
  note t = aggregate_only_named_fields
    [of "JArr (map pool_json unknown_pools)" "map pool_json unknown_pools" unknown_pools]
  have a: "aggregate (JArr (map pool_json unknown_pools)) = Inr [(''total'', 2)]"
    using t h1 h2 l by simp
  have b: "\<forall>f\<in>set fields_pool. dd_get [(''total'', 2)] f = 0"
    using t h1 h2 l by simp
  have k: "fst ` set [(''total'', 2::int)] \<subseteq> set fields_pool \<union> {''total''}"
    using t a by blast
  have "list_all (\<lambda>p. list_all (\<lambda>f. f \<notin> fst ` set p) fields_pool) unknown_pools"
    using h2 by (simp add: list_all_iff)
  then show ?thesis using h1 a b u d k by blast
qed

section \<open>Properties of the snapshot build\<close>

text \<open>\<^verbatim>\<open>dir\<close> sorts the names, so the population methods come in alphabetical order.\<close>

lemma populate_attrs_eq:
  "populate_attrs = [''_populate_counters'', ''_populate_health'', ''_populate_osds'', ''_populate_space'']"
  unfolding populate_attrs_def dir_ModelAdapter_def ModelAdapter_names_def startswith_def
  by code_simp

text \<open>A query records its URL and returns what the network and the JSON decoder give; the
  population steps change nothing else of the state.\<close>

lemma query_eq:
  "query http client ep s = (bind_r (http (client @ ep)) response_json, logged [client @ ep] s)"
  by (simp add: query_def requests_get_def bind_r_def logged_def split: sum.splits)

lemma snd_then_pure: "snd (then_pure rs f) = snd rs"
  by (simp add: then_pure_def)

lemma fst_then_pure: "fst (then_pure rs f) = bind_r (fst rs) f"
  by (simp add: then_pure_def)

lemma populate_space_snd: "snd (populate_space http client c s) = logged [client @ ''df''] s"
  by (simp add: populate_space_def get_space_stats_def snd_then_pure query_eq)

lemma populate_health_snd: "snd (populate_health http client c s) = logged [client @ ''health?detail''] s"
  by (simp add: populate_health_def get_health_def snd_then_pure query_eq)

lemma populate_osds_snd: "snd (populate_osds http client c s) = logged [client @ ''osd/dump''] s"
  by (simp add: populate_osds_def get_osds_def snd_then_pure query_eq)

lemma populate_counters_snd:
  "snd (populate_counters http client c s) = logged [client @ ''pg/dump?dumpcontents=pools''] s"
  by (simp add: populate_counters_def calculate_pool_counters_def get_pg_pools_def snd_then_pure query_eq)

lemma call_attr_snd:
  "a \<in> set populate_attrs \<Longrightarrow>
   snd (call_attr http client a c s) = logged [client @ attr_endpoint a] s"
  by (auto simp: populate_attrs_eq call_attr_def attr_endpoint_def populate_space_snd
      populate_health_snd populate_osds_snd populate_counters_snd)

lemma logged_logged: "logged us (logged vs s) = logged (vs @ us) s"
  by (simp add: logged_def)

lemma logged_Nil: "logged [] s = s"
  by (simp add: logged_def)

text \<open>After the loop over the population methods the state is the start state with the
  requests of the steps that ran; all of them ran when the loop returns.\<close>

lemma call_attrs_logged:
  assumes "set as \<subseteq> set populate_attrs" and "call_attrs http client as c s = (r, c', s')"
  shows "\<exists>n\<le>length as. s' = logged (map (\<lambda>a. client @ attr_endpoint a) (take n as)) s
           \<and> (r = Inr () \<longrightarrow> n = length as)"
  using assms
proof (induction as arbitrary: c s)
  case Nil
  then show ?case by (simp add: logged_Nil)
next
  case (Cons a as)
  have sn: "snd (call_attr http client a c s) = logged [client @ attr_endpoint a] s"
    using Cons.prems(1) by (simp add: call_attr_snd)
  show ?case
  proof (cases "fst (call_attr http client a c s)")
    case (Inl e)
    with Cons.prems(2) sn have "s' = logged [client @ attr_endpoint a] s" and "r = Inl e"
      by (auto simp: prod_eq_iff split: prod.splits sum.splits)
    then show ?thesis by (intro exI [of _ 1]) simp
  next
    case (Inr c1)
    with Cons.prems(2) sn
    have run: "call_attrs http client as c1 (logged [client @ attr_endpoint a] s) = (r, c', s')"
      by (auto simp: prod_eq_iff split: prod.splits sum.splits)
    from Cons.IH [OF _ run] Cons.prems(1) obtain n where
      n: "n \<le> length as"
      and s': "s' = logged (map (\<lambda>a. client @ attr_endpoint a) (take n as)) (logged [client @ attr_endpoint a] s)"
      and full: "r = Inr () \<longrightarrow> n = length as" by auto
    show ?thesis using n s' full
      by (intro exI [of _ "Suc n"]) (simp add: logged_logged)
  qed
qed

lemma db_logged [simp]:
  "db_clusters (logged us s) = db_clusters s" "db_statuses (logged us s) = db_statuses s"
  "last_response (logged us s) = last_response s" "stdout (logged us s) = stdout s"
  "stderr (logged us s) = stderr s" "requested (logged us s) = requested s @ us"
  by (simp_all add: logged_def)

lemma save_cluster_mem: "c \<in> set (db_clusters (save_cluster c s))"
  by (auto simp: save_cluster_def)

text \<open>When the loop over the population methods raises, the methods before the failing one
  all returned, and the cluster object is the one they left.\<close>

lemma call_attrs_failure:
  "call_attrs http client as c s = (Inl e, c', s') \<Longrightarrow>
   \<exists>pre a post s1. as = pre @ a # post
      \<and> call_attrs http client pre c s = (Inr (), c', s1)
      \<and> call_attr http client a c' s1 = (Inl e, s')"
proof (induction as arbitrary: c s)
  case Nil
  then show ?case by simp
next
  case (Cons a as)
  show ?case
  proof (cases "call_attr http client a c s")
    case (Pair r s1)
    show ?thesis
    proof (cases r)
      case (Inl e1)
      with Pair Cons.prems have "e1 = e" "c' = c" "s' = s1" by simp_all
      with Pair Inl have "a # as = [] @ a # as \<and> call_attrs http client [] c s = (Inr (), c', s)
          \<and> call_attr http client a c' s = (Inl e, s')" by simp
      then show ?thesis by blast
    next
      case (Inr c1)
      with Pair Cons.prems have "call_attrs http client as c1 s1 = (Inl e, c', s')" by simp
      from Cons.IH [OF this] obtain pre b post s2 where
        d: "as = pre @ b # post"
        and p: "call_attrs http client pre c1 s1 = (Inr (), c', s2)"
        and f: "call_attr http client b c' s2 = (Inl e, s')" by blast
      have "a # as = (a # pre) @ b # post" using d by simp
      moreover have "call_attrs http client (a # pre) c s = (Inr (), c', s2)"
        using Pair Inr p by simp
      ultimately show ?thesis using f by blast
    qed
  qed
qed

lemma refresh_failure_db:
  assumes "refresh http client c s = (Inl e, c', s')"
  shows "db_clusters s' = db_clusters s \<and> db_statuses s' = db_statuses s"
proof -
  from assms have run: "call_attrs http client populate_attrs c s = (Inl e, c', s')"
    by (auto simp: refresh_def split: prod.splits sum.splits)
  from call_attrs_logged [OF subset_refl run] obtain n where
    "s' = logged (map (\<lambda>a. client @ attr_endpoint a) (take n populate_attrs)) s" by blast
  then show ?thesis by simp
qed


lemma bind_r_Inr [simp]: "bind_r (Inr x) f = f x"
  by (simp add: bind_r_def)

lemma bind_r_Inl [simp]: "bind_r (Inl e) f = Inl e"
  by (simp add: bind_r_def)

lemma populate_space_value:
  assumes "http (client @ ''df'') = Inr r" and "decoded r = Some body"
    and "getitem body ''output'' = Inr out" and "getitem out ''stats'' = Inr data"
    and "getitem data ''total_used'' = Inr (JInt U)"
    and "getitem data ''total_space'' = Inr (JInt C)"
    and "getitem data ''total_avail'' = Inr (JInt A)"
  shows "fst (populate_space http client c s) =
         Inr (c\<lparr>space := JObj [(''used_bytes'', JInt (U * 1024)),
            (''capacity_bytes'', JInt (C * 1024)), (''free_bytes'', JInt (A * 1024))]\<rparr>)"
  using assms
  by (simp add: populate_space_def get_space_stats_def fst_then_pure query_eq response_json_def)

lemma call_attrs_success_last:
  "call_attrs http client (as @ [a]) c s = (Inr (), c', s') \<Longrightarrow>
   \<exists>c1 s1. call_attrs http client as c s = (Inr (), c1, s1)
      \<and> call_attr http client a c1 s1 = (Inr c', s')"
proof (induction as arbitrary: c s)
  case Nil
  then show ?case by (auto split: prod.splits sum.splits)
next
  case (Cons b as)
  then show ?case by (auto split: prod.splits sum.splits)
qed

lemma refresh_success_space:
  assumes "refresh http client c s = (Inr (), c', s')"
  shows "\<exists>c1 s1. fst (populate_space http client c1 s1) = Inr c' \<and> c' \<in> set (db_clusters s')"
proof -
  from assms obtain s2 where
    run: "call_attrs http client populate_attrs c s = (Inr (), c', s2)"
    and sv: "s' = save_cluster c' s2"
    by (auto simp: refresh_def split: prod.splits sum.splits)
  have "populate_attrs = [''_populate_counters'', ''_populate_health'', ''_populate_osds''] @ [''_populate_space'']"
    by (simp add: populate_attrs_eq)
  with run call_attrs_success_last obtain c1 s1 where
    "call_attr http client ''_populate_space'' c1 s1 = (Inr c', s2)" by metis
  then have "fst (populate_space http client c1 s1) = Inr c'"
    by (simp add: call_attr_def)
  then show ?thesis using sv save_cluster_mem by blast
qed

section \<open>Properties of the refresh cycle\<close>

text \<open>
  Claim C1. The claim says that a failure while building one cluster's snapshot is caught at
  the per-cluster boundary and the other clusters are still processed. In \<^verbatim>\<open>handle\<close> only
  \<^verbatim>\<open>_refresh_cluster_status\<close> is inside the \<^verbatim>\<open>try\<close>; \<^verbatim>\<open>adapter.refresh()\<close> is not. With
  two registered clusters, all endpoints of \<open>beta\<close> up and only the pool dump of \<open>alpha\<close>
  unreachable, the command ends with the exception after the first request: nothing is
  requested from \<open>beta\<close>, nothing is saved, and the completion line is not written, although
  \<open>beta\<close> on its own is refreshed without error.
\<close>

theorem handle_aborts_on_snapshot_failure:
  "handle http_pg_down (Command_init [alpha, beta] []) =
     (Inl ConnectionError,
      \<lparr>db_clusters = [alpha, beta], db_statuses = [], last_response = None,
       stdout = [Updating 2], stderr = [],
       requested = [''http://alpha:5000/pg/dump?dumpcontents=pools'']\<rparr>)
   \<and> fst (handle http_pg_down (Command_init [beta] [])) = Inr ()"
  by code_simp

text \<open>
  Claim C2, as stated, fails: on a cluster whose endpoints all answer, the build requests
  the pool dump first and the space statistics last, so the steps do not run in the order
  space, health, osds, counters.
\<close>

theorem refresh_order_counterexample:
  "fst (refresh http_ok ''http://alpha:5000/'' alpha (Command_init [alpha] [])) = Inr ()
   \<and> requested (snd (snd (refresh http_ok ''http://alpha:5000/'' alpha (Command_init [alpha] []))))
       = [''http://alpha:5000/pg/dump?dumpcontents=pools'', ''http://alpha:5000/health?detail'',
          ''http://alpha:5000/osd/dump'', ''http://alpha:5000/df'']
   \<and> populate_attrs \<noteq> [''_populate_space'', ''_populate_health'', ''_populate_osds'',
          ''_populate_counters'']"
  by code_simp

lemma requested_save_cluster [simp]:
  "requested (save_cluster c s) = requested s" "last_response (save_cluster c s) = last_response s"
  "stderr (save_cluster c s) = stderr s" "stdout (save_cluster c s) = stdout s"
  "db_statuses (save_cluster c s) = db_statuses s"
  by (simp_all add: save_cluster_def)

lemma refresh_run:
  assumes "refresh http client c s = (r, c', s')"
  shows "\<exists>s1. call_attrs http client populate_attrs c s = (r, c', s1)
           \<and> s' = (if r = Inr () then save_cluster c' s1 else s1)"
  using assms by (auto simp: refresh_def split: prod.splits sum.splits)

text \<open>When the loop raises, the failing method is the last one that issued a request: the
  methods before it returned, and the state is the start state with the requests up to and
  including its own.\<close>

lemma call_attrs_stops:
  assumes sub: "set as \<subseteq> set populate_attrs"
    and run: "call_attrs http client as c s = (Inl e, c', s')"
  shows "\<exists>n s1. 0 < n \<and> n \<le> length as
      \<and> call_attrs http client (take (n - 1) as) c s = (Inr (), c', s1)
      \<and> call_attr http client (as ! (n - 1)) c' s1 = (Inl e, s')
      \<and> s' = logged (map (\<lambda>a. client @ attr_endpoint a) (take n as)) s"
proof -
  from call_attrs_failure [OF run] obtain pre a post s1 where
    d: "as = pre @ a # post"
    and p: "call_attrs http client pre c s = (Inr (), c', s1)"
    and f: "call_attr http client a c' s1 = (Inl e, s')" by blast
  have subp: "set pre \<subseteq> set populate_attrs" and a: "a \<in> set populate_attrs"
    using sub d by auto
  from call_attrs_logged [OF subp p] have
    s1: "s1 = logged (map (\<lambda>a. client @ attr_endpoint a) pre) s" by auto
  have "s' = logged [client @ attr_endpoint a] s1"
    using call_attr_snd [OF a, of http client c' s1] f by simp
  then have s': "s' = logged (map (\<lambda>a. client @ attr_endpoint a) (pre @ [a])) s"
    using s1 by (simp add: logged_logged)
  let ?n = "Suc (length pre)"
  have "take (?n - 1) as = pre" "as ! (?n - 1) = a" "take ?n as = pre @ [a]" "?n \<le> length as"
    using d by simp_all
  with p f s' show ?thesis by (intro exI [of _ ?n] exI [of _ s1]) simp
qed

text \<open>
  Claim C2, amended. The population methods are found with \<^verbatim>\<open>dir\<close> and run in the
  alphabetical order of their names: counters, health, osds, space. Every build issues its
  requests in that order. A build that returns has issued all four. A build that raises
  stops at the first step that raises: with \<open>n\<close> requests issued, the first \<open>n - 1\<close> steps
  returned, step \<open>n\<close> raised the exception of the build, and no later step ran.
\<close>

theorem refresh_runs_steps_in_name_order:
  "populate_attrs = [''_populate_counters'', ''_populate_health'', ''_populate_osds'',
      ''_populate_space'']
   \<and> (\<forall>r c' s'. refresh http client c s = (r, c', s') \<longrightarrow>
        (\<exists>n\<le>4. requested s' = requested s @
            take n [client @ ''pg/dump?dumpcontents=pools'', client @ ''health?detail'',
                    client @ ''osd/dump'', client @ ''df'']
          \<and> (r = Inr () \<longrightarrow> n = 4)
          \<and> (\<forall>e. r = Inl e \<longrightarrow> 0 < n
                \<and> (\<exists>s1. call_attrs http client (take (n - 1) populate_attrs) c s
                            = (Inr (), c', s1)
                      \<and> call_attr http client (populate_attrs ! (n - 1)) c' s1
                            = (Inl e, s')))))"
proof (intro conjI allI impI)
  show "populate_attrs = [''_populate_counters'', ''_populate_health'', ''_populate_osds'',
      ''_populate_space'']" by (rule populate_attrs_eq)
next
  fix r c' s'
  assume "refresh http client c s = (r, c', s')"
  from refresh_run [OF this] obtain s1 where
    run: "call_attrs http client populate_attrs c s = (r, c', s1)"
    and s': "s' = (if r = Inr () then save_cluster c' s1 else s1)" by blast
  let ?urls = "[client @ ''pg/dump?dumpcontents=pools'', client @ ''health?detail'',
                    client @ ''osd/dump'', client @ ''df'']"
  have m: "map (\<lambda>a. client @ attr_endpoint a) (take n populate_attrs) = take n ?urls" for n
    by (simp add: populate_attrs_eq attr_endpoint_def take_map [symmetric])
  have rq: "requested s' = requested s1" using s' by simp
  show "\<exists>n\<le>4. requested s' = requested s @ take n ?urls
          \<and> (r = Inr () \<longrightarrow> n = 4)
          \<and> (\<forall>e. r = Inl e \<longrightarrow> 0 < n
                \<and> (\<exists>s1. call_attrs http client (take (n - 1) populate_attrs) c s
                            = (Inr (), c', s1)
                      \<and> call_attr http client (populate_attrs ! (n - 1)) c' s1
                            = (Inl e, s')))"
  proof (cases r)
    case (Inr u)
    from call_attrs_logged [OF subset_refl run] Inr obtain n where
      "s1 = logged (map (\<lambda>a. client @ attr_endpoint a) (take n populate_attrs)) s"
      and "n = length populate_attrs" by auto
    then have "requested s' = requested s @ take 4 ?urls"
      using rq m [of n] by (simp add: populate_attrs_eq)
    with Inr show ?thesis by (intro exI [of _ 4]) simp
  next
    case (Inl e)
    with s' have eq: "s' = s1" by simp
    from call_attrs_stops [OF subset_refl run [unfolded Inl]] obtain n s2 where
      n0: "0 < n" and n4: "n \<le> length populate_attrs"
      and p: "call_attrs http client (take (n - 1) populate_attrs) c s = (Inr (), c', s2)"
      and f: "call_attr http client (populate_attrs ! (n - 1)) c' s2 = (Inl e, s1)"
      and l: "s1 = logged (map (\<lambda>a. client @ attr_endpoint a) (take n populate_attrs)) s"
      by blast
    have "requested s' = requested s @ take n ?urls" using eq l m [of n] by simp
    moreover have "n \<le> 4" using n4 by (simp add: populate_attrs_eq)
    ultimately show ?thesis using Inl n0 p f eq by (intro exI [of _ n]) auto
  qed
qed

theorem refresh_runs_steps_in_name_order_witness:
  "fst (refresh http_ok ''http://beta:5000/'' beta (Command_init [beta] [])) = Inr ()
   \<and> requested (snd (snd (refresh http_ok ''http://beta:5000/'' beta (Command_init [beta] []))))
       = [''http://beta:5000/'' @ ''pg/dump?dumpcontents=pools'',
          ''http://beta:5000/'' @ ''health?detail'',
          ''http://beta:5000/'' @ ''osd/dump'', ''http://beta:5000/'' @ ''df'']
   \<and> fst (refresh http_health_down ''http://alpha:5000/'' alpha (Command_init [alpha] []))
       = Inl ConnectionError
   \<and> requested (snd (snd (refresh http_health_down ''http://alpha:5000/'' alpha
        (Command_init [alpha] []))))
       = [''http://alpha:5000/pg/dump?dumpcontents=pools'', ''http://alpha:5000/health?detail'']
   \<and> (\<exists>s1. call_attrs http_health_down ''http://alpha:5000/'' [''_populate_counters''] alpha
              (Command_init [alpha] [])
            = (Inr (), fst (snd (refresh http_health_down ''http://alpha:5000/'' alpha
                 (Command_init [alpha] []))), s1)
         \<and> call_attr http_health_down ''http://alpha:5000/'' ''_populate_health''
              (fst (snd (refresh http_health_down ''http://alpha:5000/'' alpha
                 (Command_init [alpha] [])))) s1
            = (Inl ConnectionError, snd (snd (refresh http_health_down ''http://alpha:5000/''
                 alpha (Command_init [alpha] [])))))"
proof -
  let ?run = "refresh http_ok ''http://beta:5000/'' beta (Command_init [beta] [])"
  have ok: "fst ?run = Inr ()" by code_simp
  have e: "?run = (fst ?run, fst (snd ?run), snd (snd ?run))" by simp
  have r0: "requested (Command_init [beta] []) = []" by (simp add: Command_init_def)
  from refresh_runs_steps_in_name_order
    [of http_ok "''http://beta:5000/''" beta "Command_init [beta] []"] e
  obtain n where "n \<le> 4"
    and q: "requested (snd (snd ?run)) = requested (Command_init [beta] []) @
            take n [''http://beta:5000/'' @ ''pg/dump?dumpcontents=pools'',
                    ''http://beta:5000/'' @ ''health?detail'',
                    ''http://beta:5000/'' @ ''osd/dump'', ''http://beta:5000/'' @ ''df'']"
    and f: "fst ?run = Inr () \<longrightarrow> n = 4" by blast
  from f ok have "n = 4" by simp
  with q r0 have first: "requested (snd (snd ?run))
       = [''http://beta:5000/'' @ ''pg/dump?dumpcontents=pools'',
          ''http://beta:5000/'' @ ''health?detail'',
          ''http://beta:5000/'' @ ''osd/dump'', ''http://beta:5000/'' @ ''df'']" by simp
  let ?bad = "refresh http_health_down ''http://alpha:5000/'' alpha (Command_init [alpha] [])"
  have bad: "fst ?bad = Inl ConnectionError" by code_simp
  have rq: "requested (snd (snd ?bad))
       = [''http://alpha:5000/pg/dump?dumpcontents=pools'', ''http://alpha:5000/health?detail'']"
    by code_simp
  have e': "?bad = (fst ?bad, fst (snd ?bad), snd (snd ?bad))" by simp
  have a0: "requested (Command_init [alpha] []) = []" by (simp add: Command_init_def)
  from refresh_runs_steps_in_name_order
    [of http_health_down "''http://alpha:5000/''" alpha "Command_init [alpha] []"] e' bad
  obtain m s1 where m4: "m \<le> 4"
    and mq: "requested (snd (snd ?bad)) = requested (Command_init [alpha] []) @
            take m [''http://alpha:5000/'' @ ''pg/dump?dumpcontents=pools'',
                    ''http://alpha:5000/'' @ ''health?detail'',
                    ''http://alpha:5000/'' @ ''osd/dump'', ''http://alpha:5000/'' @ ''df'']"
    and m0: "0 < m"
    and p: "call_attrs http_health_down ''http://alpha:5000/'' (take (m - 1) populate_attrs)
              alpha (Command_init [alpha] []) = (Inr (), fst (snd ?bad), s1)"
    and g: "call_attr http_health_down ''http://alpha:5000/'' (populate_attrs ! (m - 1))
              (fst (snd ?bad)) s1 = (Inl ConnectionError, snd (snd ?bad))"
    by blast
  from mq rq a0 have t: "take m [''http://alpha:5000/'' @ ''pg/dump?dumpcontents=pools'',
                    ''http://alpha:5000/'' @ ''health?detail'',
                    ''http://alpha:5000/'' @ ''osd/dump'', ''http://alpha:5000/'' @ ''df'']
      = [''http://alpha:5000/pg/dump?dumpcontents=pools'', ''http://alpha:5000/health?detail'']"
    by simp
  from arg_cong [OF t, of length] have "min 4 m = 2" by simp
  then have "m = 2" using m4 by simp
  with p g have "call_attrs http_health_down ''http://alpha:5000/'' [''_populate_counters'']
              alpha (Command_init [alpha] []) = (Inr (), fst (snd ?bad), s1)"
    and "call_attr http_health_down ''http://alpha:5000/'' ''_populate_health''
              (fst (snd ?bad)) s1 = (Inl ConnectionError, snd (snd ?bad))"
    by (simp_all add: populate_attrs_eq)
  with ok first bad rq show ?thesis by blast
qed

text \<open>
  Claim C4. When the \<open>df\<close> endpoint answers with integer statistics \<open>total_used = U\<close>,
  \<open>total_space = C\<close> and \<open>total_avail = A\<close>, the space step sets the cluster's space to
  \<open>used_bytes = U * 1024\<close>, \<open>capacity_bytes = C * 1024\<close>, \<open>free_bytes = A * 1024\<close>, and a
  build that returns has saved a cluster whose space is exactly that.
\<close>

theorem space_is_kilobytes_times_1024:
  assumes "http (client @ ''df'') = Inr r" and "decoded r = Some body"
    and "getitem body ''output'' = Inr out" and "getitem out ''stats'' = Inr data"
    and "getitem data ''total_used'' = Inr (JInt U)"
    and "getitem data ''total_space'' = Inr (JInt C)"
    and "getitem data ''total_avail'' = Inr (JInt A)"
  shows "fst (populate_space http client c s) =
           Inr (c\<lparr>space := JObj [(''used_bytes'', JInt (U * 1024)),
              (''capacity_bytes'', JInt (C * 1024)), (''free_bytes'', JInt (A * 1024))]\<rparr>)
         \<and> (\<forall>c' s'. refresh http client c s = (Inr (), c', s') \<longrightarrow>
              space c' = JObj [(''used_bytes'', JInt (U * 1024)),
                (''capacity_bytes'', JInt (C * 1024)), (''free_bytes'', JInt (A * 1024))]
              \<and> c' \<in> set (db_clusters s'))"
proof (intro conjI allI impI)
  show "fst (populate_space http client c s) =
           Inr (c\<lparr>space := JObj [(''used_bytes'', JInt (U * 1024)),
              (''capacity_bytes'', JInt (C * 1024)), (''free_bytes'', JInt (A * 1024))]\<rparr>)"
    using assms by (rule populate_space_value)
next
  fix c' s'
  assume ok: "refresh http client c s = (Inr (), c', s')"
  from refresh_success_space [OF ok] obtain c1 s1 where
    p: "fst (populate_space http client c1 s1) = Inr c'" and m: "c' \<in> set (db_clusters s')"
    by blast
  have "fst (populate_space http client c1 s1) =
           Inr (c1\<lparr>space := JObj [(''used_bytes'', JInt (U * 1024)),
              (''capacity_bytes'', JInt (C * 1024)), (''free_bytes'', JInt (A * 1024))]\<rparr>)"
    using assms by (rule populate_space_value)
  with p have "c' = c1\<lparr>space := JObj [(''used_bytes'', JInt (U * 1024)),
              (''capacity_bytes'', JInt (C * 1024)), (''free_bytes'', JInt (A * 1024))]\<rparr>"
    by simp
  then show "space c' = JObj [(''used_bytes'', JInt (U * 1024)),
                (''capacity_bytes'', JInt (C * 1024)), (''free_bytes'', JInt (A * 1024))]"
    by simp
  show "c' \<in> set (db_clusters s')" by (rule m)
qed

theorem space_is_kilobytes_times_1024_witness:
  "http_ok (''http://alpha:5000/'' @ ''df'') = Inr (ok_response ''http://alpha:5000/df'' df_body)
   \<and> decoded (ok_response ''http://alpha:5000/df'' df_body) = Some df_body
   \<and> getitem df_body ''output'' = Inr (JObj [(''stats'',
        JObj [(''total_used'', JInt 5), (''total_space'', JInt 100), (''total_avail'', JInt 95)])])
   \<and> fst (populate_space http_ok ''http://alpha:5000/'' alpha (Command_init [alpha] [])) =
        Inr (alpha\<lparr>space := JObj [(''used_bytes'', JInt 5120),
              (''capacity_bytes'', JInt 102400), (''free_bytes'', JInt 97280)]\<rparr>)
   \<and> fst (refresh http_ok ''http://alpha:5000/'' alpha (Command_init [alpha] [])) = Inr ()
   \<and> space (fst (snd (refresh http_ok ''http://alpha:5000/'' alpha (Command_init [alpha] [])))) =
        JObj [(''used_bytes'', JInt 5120), (''capacity_bytes'', JInt 102400),
              (''free_bytes'', JInt 97280)]"
proof -
  let ?data = "JObj [(''total_used'', JInt 5), (''total_space'', JInt 100),
      (''total_avail'', JInt 95)]"
  let ?run = "refresh http_ok ''http://alpha:5000/'' alpha (Command_init [alpha] [])"
  have h1: "http_ok (''http://alpha:5000/'' @ ''df'') =
      Inr (ok_response ''http://alpha:5000/df'' df_body)"
    by code_simp
  have h2: "decoded (ok_response ''http://alpha:5000/df'' df_body) = Some df_body"
    by (simp add: ok_response_def)
  have h3: "getitem df_body ''output'' = Inr (JObj [(''stats'', ?data)])"
    by (simp add: df_body_def)
  have h4: "getitem (JObj [(''stats'', ?data)]) ''stats'' = Inr ?data" by simp
  have h5: "getitem ?data ''total_used'' = Inr (JInt 5)" by simp
  have h6: "getitem ?data ''total_space'' = Inr (JInt 100)" by simp
  have h7: "getitem ?data ''total_avail'' = Inr (JInt 95)" by simp
  note t = space_is_kilobytes_times_1024
    [where http = http_ok and client = "''http://alpha:5000/''" and c = alpha
       and s = "Command_init [alpha] []", OF h1 h2 h3 h4 h5 h6 h7]
  have ok: "fst ?run = Inr ()" by code_simp
  then have e: "?run = (Inr (), fst (snd ?run), snd (snd ?run))"
    by (metis prod.collapse)
  from t e have "space (fst (snd ?run)) = JObj [(''used_bytes'', JInt (5 * 1024)),
      (''capacity_bytes'', JInt (100 * 1024)), (''free_bytes'', JInt (95 * 1024))]"
    by blast
  with t h1 h2 h3 ok show ?thesis by simp
qed

text \<open>
  Claim C5. If a population step raises, \<^verbatim>\<open>refresh\<close> raises the same exception without
  reaching \<^verbatim>\<open>self.cluster.save()\<close>: the cluster table and the status table are as they
  were, so the snapshot saved before stays. The exception also ends the loop of
  \<^verbatim>\<open>handle\<close> at this cluster, so nothing is saved later in the cycle either.
\<close>

theorem failed_step_saves_nothing:
  assumes "call_attrs http client populate_attrs c s = (Inl e, c', s')"
  shows "refresh http client c s = (Inl e, c', s')
         \<and> db_clusters s' = db_clusters s \<and> db_statuses s' = db_statuses s
         \<and> (CephRestClient_init (api_base_url c) = Inr client
              \<longrightarrow> handle_loop http (c # cs) s = (Inl e, s'))"
proof -
  have r: "refresh http client c s = (Inl e, c', s')"
    using assms by (simp add: refresh_def)
  then have "CephRestClient_init (api_base_url c) = Inr client
              \<longrightarrow> handle_loop http (c # cs) s = (Inl e, s')"
    by (simp add: handle_cluster_def)
  then show ?thesis using r refresh_failure_db [OF r] by blast
qed

theorem failed_step_saves_nothing_witness:
  "call_attrs http_health_down ''http://alpha:5000/'' populate_attrs alpha (Command_init [alpha, beta] [])
     = (Inl ConnectionError,
        alpha\<lparr>counters := JObj [(''pool'',
           JObj [(''num_objects_degraded'', JInt 1), (''total'', JInt 3)])]\<rparr>,
        (Command_init [alpha, beta] [])\<lparr>requested :=
           [''http://alpha:5000/pg/dump?dumpcontents=pools'', ''http://alpha:5000/health?detail'']\<rparr>)
   \<and> CephRestClient_init (api_base_url alpha) = Inr ''http://alpha:5000/''
   \<and> fst (refresh http_health_down ''http://alpha:5000/'' alpha (Command_init [alpha, beta] []))
       = Inl ConnectionError
   \<and> db_clusters (snd (snd (refresh http_health_down ''http://alpha:5000/'' alpha
        (Command_init [alpha, beta] [])))) = [alpha, beta]
   \<and> fst (handle_loop http_health_down [alpha, beta] (Command_init [alpha, beta] []))
       = Inl ConnectionError
   \<and> db_clusters (snd (handle_loop http_health_down [alpha, beta] (Command_init [alpha, beta] [])))
       = [alpha, beta]"
proof -
  have h: "call_attrs http_health_down ''http://alpha:5000/'' populate_attrs alpha
       (Command_init [alpha, beta] [])
     = (Inl ConnectionError,
        alpha\<lparr>counters := JObj [(''pool'',
           JObj [(''num_objects_degraded'', JInt 1), (''total'', JInt 3)])]\<rparr>,
        (Command_init [alpha, beta] [])\<lparr>requested :=
           [''http://alpha:5000/pg/dump?dumpcontents=pools'', ''http://alpha:5000/health?detail'']\<rparr>)"
    by code_simp
  have i: "CephRestClient_init (api_base_url alpha) = Inr ''http://alpha:5000/''"
    by code_simp
  from failed_step_saves_nothing [OF h, of "[beta]"] h i show ?thesis
    by (simp add: Command_init_def)
qed



text \<open>
  Claim C8. The claim says that every one of the five endpoints, the status endpoint
  included, is requested at the base URL normalized to end with a slash. For the base URL
  \<^verbatim>\<open>http://host:1234\<close> the client of the four data endpoints does so (\<^verbatim>\<open>self.__url += '/'\<close>),
  but \<^verbatim>\<open>_cluster_query\<close> calls \<^verbatim>\<open>url_base.append('/')\<close> on a string: the status query
  raises \<open>AttributeError\<close> and no request is issued.
\<close>

theorem status_query_without_slash_raises:
  "api_base_url host_cluster = ''http://host:1234''
   \<and> cluster_query http host_cluster ''status'' s = (Inl AttributeError, s)
   \<and> CephRestClient_init (api_base_url host_cluster) = Inr ''http://host:1234/''
   \<and> requested (snd (query http ''http://host:1234/'' ''df'' s))
        = requested s @ [''http://host:1234/df'']"
  by (simp add: host_cluster_def old_snapshot_def cluster_query_def CephRestClient_init_def
      query_eq)

text \<open>
  Claim C9, as stated, fails: with the status endpoint of \<open>beta\<close> unreachable, the diagnostic
  written for \<open>beta\<close> shows the response of the status request of \<open>alpha\<close>, the cluster
  processed before it.
\<close>

theorem stale_response_counterexample:
  "stderr (snd (handle http_beta_status_down (Command_init [alpha, beta] []))) =
     [LastStatusCode 200, LastHeaders [(''content-type'', ''application/json'')],
      LastContent ''http://alpha:5000/status'', Traceback ConnectionError]
   \<and> requested (snd (handle http_beta_status_down (Command_init [alpha, beta] []))) =
     [''http://alpha:5000/pg/dump?dumpcontents=pools'', ''http://alpha:5000/health?detail'',
      ''http://alpha:5000/osd/dump'', ''http://alpha:5000/df'', ''http://alpha:5000/status'',
      ''http://beta:5000/pg/dump?dumpcontents=pools'', ''http://beta:5000/health?detail'',
      ''http://beta:5000/osd/dump'', ''http://beta:5000/df'', ''http://beta:5000/status'']
   \<and> http_beta_status_down ''http://beta:5000/status'' = Inl ConnectionError"
  by code_simp

text \<open>The retained response changes only when a status request returns.\<close>

lemma cluster_query_effect:
  assumes "cluster_query http c ''status'' s = (r, s')"
  shows "last_response s' = (case status_get http c of None \<Rightarrow> last_response s | Some x \<Rightarrow> Some x)
     \<and> stderr s' = stderr s \<and> (status_get http c = None \<longrightarrow> (\<exists>e. r = Inl e))"
  using assms
  by (auto simp: cluster_query_def status_get_def requests_get_def Let_def
      split: if_splits sum.splits prod.splits)

lemma refresh_cluster_status_effect:
  assumes "refresh_cluster_status http c s = (r, s')"
  shows "last_response s' = (case status_get http c of None \<Rightarrow> last_response s | Some x \<Rightarrow> Some x)
     \<and> stderr s' = stderr s \<and> (status_get http c = None \<longrightarrow> (\<exists>e. r = Inl e))"
proof (cases "cluster_query http c ''status'' s")
  case (Pair q s1)
  note eff = cluster_query_effect [OF Pair]
  show ?thesis
  proof (cases q)
    case (Inl e)
    with Pair assms have "r = Inl e" "s' = s1" by (simp_all add: refresh_cluster_status_def)
    with eff show ?thesis by simp
  next
    case (Inr result)
    with eff have some: "status_get http c \<noteq> None" by auto
    show ?thesis
    proof (cases "getitem result ''output''")
      case (Inl e)
      with Pair Inr assms have "r = Inl e" "s' = s1" by (simp_all add: refresh_cluster_status_def)
      with eff show ?thesis by simp
    next
      case (Inr rep)
      with Pair \<open>q = Inr result\<close> assms
      have "s' = write_out (UpdatedStatus (name c))
                   (save_status \<lparr>status_cluster = cid c, report = rep\<rparr> s1)"
        by (simp add: refresh_cluster_status_def)
      then have "last_response s' = last_response s1" "stderr s' = stderr s1"
        by (simp_all add: write_out_def save_status_def)
      with eff some show ?thesis by auto
    qed
  qed
qed

lemma call_attr_url:
  "call_attr http client a c s = (Inr c', s') \<Longrightarrow> api_base_url c' = api_base_url c"
  by (auto simp: call_attr_def populate_space_def populate_health_def populate_osds_def
      populate_counters_def then_pure_def bind_r_def split: if_splits sum.splits)

lemma call_attrs_url:
  "call_attrs http client as c s = (r, c', s') \<Longrightarrow> api_base_url c' = api_base_url c"
proof (induction as arbitrary: c s)
  case Nil
  then show ?case by simp
next
  case (Cons a as)
  show ?case
  proof (cases "call_attr http client a c s")
    case (Pair q s1)
    show ?thesis
    proof (cases q)
      case (Inl e)
      with Pair Cons.prems show ?thesis by simp
    next
      case (Inr c1)
      with Pair Cons.prems have "call_attrs http client as c1 s1 = (r, c', s')" by simp
      from Cons.IH [OF this] call_attr_url [of http client a c s c1 s1] Pair Inr
      show ?thesis by simp
    qed
  qed
qed

lemma refresh_frame:
  assumes "refresh http client c s = (r, c', s')"
  shows "last_response s' = last_response s \<and> stderr s' = stderr s
         \<and> api_base_url c' = api_base_url c"
proof -
  from refresh_run [OF assms] obtain s1 where
    run: "call_attrs http client populate_attrs c s = (r, c', s1)"
    and s': "s' = (if r = Inr () then save_cluster c' s1 else s1)" by blast
  from call_attrs_logged [OF subset_refl run] obtain n where
    "s1 = logged (map (\<lambda>a. client @ attr_endpoint a) (take n populate_attrs)) s" by blast
  then have "last_response s1 = last_response s" "stderr s1 = stderr s" by simp_all
  then show ?thesis using s' call_attrs_url [OF run] by simp
qed

lemma status_get_cong: "api_base_url c' = api_base_url c \<Longrightarrow> status_get http c' = status_get http c"
  by (simp add: status_get_def)

text \<open>Whether the status refresh of a cluster raises depends on the network and on the
  cluster's base URL only.\<close>

lemma refresh_cluster_status_fst:
  "api_base_url c1 = api_base_url c \<Longrightarrow>
   fst (refresh_cluster_status http c1 t) = fst (refresh_cluster_status http c s)"
  by (auto simp: refresh_cluster_status_def cluster_query_def requests_get_def Let_def
      split: sum.splits prod.splits)

text \<open>
  Claim C9, amended. The retained response is not reset per cluster. Processing a cluster
  replaces it exactly when that cluster's status request returns a response; the build of
  the snapshot never touches it. When the status refresh of the cluster raises, a diagnostic
  taken from the response retained at that moment is written, followed by the trace of the
  exception: \<^verbatim>\<open><not set>\<close> when no response is retained, and the status code, headers and
  body of the retained response when its status code is outside 400 to 599. When the status
  refresh returns, nothing is written to the error stream. If the cluster's own status
  request did not return, the refresh raises and the retained response is the one from before
  this cluster was processed.
\<close>

theorem diagnostic_shows_last_returned_response:
  assumes "handle_cluster http c s = (Inr (), s')"
  shows "last_response s' =
           (case status_get http c of None \<Rightarrow> last_response s | Some r \<Rightarrow> Some r)
         \<and> (\<forall>e. fst (refresh_cluster_status http c s) = Inl e \<longrightarrow>
              (\<exists>d. stderr s' = stderr s @ d @ [Traceback e]
                 \<and> (last_response s' = None \<longrightarrow> d = [LastNotSet])
                 \<and> (\<forall>r. last_response s' = Some r \<and> response_ok r \<longrightarrow>
                       d = [LastStatusCode (status_code r), LastHeaders (headers r),
                            LastContent (content r)])))
         \<and> (fst (refresh_cluster_status http c s) = Inr () \<longrightarrow> stderr s' = stderr s)
         \<and> (status_get http c = None \<longrightarrow>
              (\<exists>e. fst (refresh_cluster_status http c s) = Inl e)
              \<and> last_response s' = last_response s)"
proof -
  from assms obtain client c1 s1 where
    ci: "CephRestClient_init (api_base_url c) = Inr client"
    and ref: "refresh http client c s = (Inr (), c1, s1)"
    by (auto simp: handle_cluster_def split: sum.splits prod.splits)
  let ?s2 = "write_out (Refreshing (name c1) (api_base_url c1)) s1"
  obtain q s3 where st: "refresh_cluster_status http c1 ?s2 = (q, s3)"
    by (cases "refresh_cluster_status http c1 ?s2") blast
  from refresh_frame [OF ref] have
    f: "last_response ?s2 = last_response s" "stderr ?s2 = stderr s"
    and u: "api_base_url c1 = api_base_url c"
    by (simp_all add: write_out_def)
  have q: "fst (refresh_cluster_status http c s) = q"
    using refresh_cluster_status_fst [OF u, of http ?s2 s] st by simp
  from refresh_cluster_status_effect [OF st] f status_get_cong [OF u, of http] have
    l3: "last_response s3 = (case status_get http c of None \<Rightarrow> last_response s | Some r \<Rightarrow> Some r)"
    and e3: "stderr s3 = stderr s"
    and n3: "status_get http c = None \<longrightarrow> (\<exists>e. q = Inl e)"
    by (auto split: option.splits)
  have pr: "(last_response s3 = None \<longrightarrow> print_response (last_response s3) = [LastNotSet])
     \<and> (\<forall>r. last_response s3 = Some r \<and> response_ok r \<longrightarrow>
           print_response (last_response s3) =
             [LastStatusCode (status_code r), LastHeaders (headers r), LastContent (content r)])"
    by (simp add: print_response_def)
  show ?thesis
  proof (cases q)
    case (Inl e)
    with assms ci ref st have "s' = write_err (print_response (last_response s3) @ [Traceback e]) s3"
      by (simp add: handle_cluster_def Let_def)
    then have ls: "last_response s' = last_response s3"
      and er: "stderr s' = stderr s3 @ print_response (last_response s3) @ [Traceback e]"
      by (simp_all add: write_err_def)
    have 1: "last_response s' =
           (case status_get http c of None \<Rightarrow> last_response s | Some r \<Rightarrow> Some r)"
      using ls l3 by simp
    have 2: "\<forall>e'. fst (refresh_cluster_status http c s) = Inl e' \<longrightarrow>
              (\<exists>d. stderr s' = stderr s @ d @ [Traceback e']
                 \<and> (last_response s' = None \<longrightarrow> d = [LastNotSet])
                 \<and> (\<forall>r. last_response s' = Some r \<and> response_ok r \<longrightarrow>
                       d = [LastStatusCode (status_code r), LastHeaders (headers r),
                            LastContent (content r)]))"
    proof (intro allI impI)
      fix e' assume "fst (refresh_cluster_status http c s) = Inl e'"
      with q Inl have "e' = e" by simp
      with er e3 ls pr show "\<exists>d. stderr s' = stderr s @ d @ [Traceback e']
                 \<and> (last_response s' = None \<longrightarrow> d = [LastNotSet])
                 \<and> (\<forall>r. last_response s' = Some r \<and> response_ok r \<longrightarrow>
                       d = [LastStatusCode (status_code r), LastHeaders (headers r),
                            LastContent (content r)])"
        by (intro exI [of _ "print_response (last_response s3)"]) simp
    qed
    have 3: "fst (refresh_cluster_status http c s) = Inr () \<longrightarrow> stderr s' = stderr s"
      using q Inl by simp
    have 4: "status_get http c = None \<longrightarrow>
              (\<exists>e. fst (refresh_cluster_status http c s) = Inl e)
              \<and> last_response s' = last_response s"
      using q Inl 1 by simp
    show ?thesis using 1 2 3 4 by blast
  next
    case (Inr u')
    with assms ci ref st have "s' = s3"
      by (simp add: handle_cluster_def Let_def)
    with l3 e3 n3 Inr q show ?thesis by auto
  qed
qed

theorem diagnostic_shows_last_returned_response_witness:
  "fst (handle_cluster http_beta_status_down beta state_after_alpha) = Inr ()
   \<and> fst (refresh_cluster_status http_beta_status_down beta state_after_alpha)
        = Inl ConnectionError
   \<and> status_get http_beta_status_down beta = None
   \<and> response_ok (ok_response ''http://alpha:5000/status'' status_body)
   \<and> last_response state_after_alpha
        = Some (ok_response ''http://alpha:5000/status'' status_body)
   \<and> last_response (snd (handle_cluster http_beta_status_down beta state_after_alpha))
        = Some (ok_response ''http://alpha:5000/status'' status_body)
   \<and> stderr (snd (handle_cluster http_beta_status_down beta state_after_alpha))
        = [LastStatusCode 200, LastHeaders [(''content-type'', ''application/json'')],
           LastContent ''http://alpha:5000/status'', Traceback ConnectionError]"
proof -
  let ?run = "handle_cluster http_beta_status_down beta state_after_alpha"
  let ?r = "ok_response ''http://alpha:5000/status'' status_body"
  have ok: "fst ?run = Inr ()" by code_simp
  then have h: "?run = (Inr (), snd ?run)" by (metis prod.collapse)
  have fl: "fst (refresh_cluster_status http_beta_status_down beta state_after_alpha)
        = Inl ConnectionError" by code_simp
  have n: "status_get http_beta_status_down beta = None" by code_simp
  have l: "last_response state_after_alpha = Some ?r"
    and e: "stderr state_after_alpha = []"
    by (simp_all add: state_after_alpha_def Command_init_def)
  have rk: "response_ok ?r" by (simp add: response_ok_def ok_response_def)
  note t = diagnostic_shows_last_returned_response [OF h]
  from t n l have ls: "last_response (snd ?run) = Some ?r" by simp
  from t fl obtain d where
    d1: "stderr (snd ?run) = stderr state_after_alpha @ d @ [Traceback ConnectionError]"
    and d2: "\<forall>r. last_response (snd ?run) = Some r \<and> response_ok r \<longrightarrow>
                       d = [LastStatusCode (status_code r), LastHeaders (headers r),
                            LastContent (content r)]"
    by blast
  from d2 ls rk have "d = [LastStatusCode (status_code ?r), LastHeaders (headers ?r),
                            LastContent (content ?r)]" by blast
  then have "d = [LastStatusCode 200, LastHeaders [(''content-type'', ''application/json'')],
           LastContent ''http://alpha:5000/status'']" by (simp add: ok_response_def)
  with d1 e ok fl n rk l ls show ?thesis by simp
qed

end
